theory Spec2Isabelle
  imports Main
begin

text \<open>
  A model of \<open>visa_checker.py\<close>, the monitor of a visa-appointment page: the in-page
  JavaScript hook that watches the schedule-days response and filters it by a date range,
  the preferences file and the first-run prompt, the page tests and the top-level flow, and
  the captcha extractor and solver with their retry budgets. The definitions come first,
  each from the function of the same name; the claims of the specification follow, each
  with its theorem.
\<close>

section \<open>Strings\<close>

text \<open>
  Strings are character lists. \<open>startswith s p\<close> is Python's \<open>s.startswith(p)\<close>,
  \<open>contains s p\<close> is Python's \<open>p in s\<close> and JavaScript's \<open>s.includes(p)\<close>.
\<close>

fun startswith :: "string \<Rightarrow> string \<Rightarrow> bool" where
  "startswith s [] = True"
| "startswith [] (c # p) = False"
| "startswith (a # s) (c # p) = (a = c \<and> startswith s p)"

fun contains :: "string \<Rightarrow> string \<Rightarrow> bool" where
  "contains [] p = (p = [])"
| "contains (a # s) p = (startswith (a # s) p \<or> contains s p)"

definition is_digit :: "char \<Rightarrow> bool" where
  "is_digit c = (48 \<le> (of_char c :: nat) \<and> (of_char c :: nat) \<le> 57)"

definition digit_val :: "char \<Rightarrow> nat" where
  "digit_val c = of_char c - 48"

definition number_of :: "string \<Rightarrow> nat option" where
  "number_of s =
     (if s \<noteq> [] \<and> list_all is_digit s
      then Some (foldl (\<lambda>n c. 10 * n + digit_val c) 0 s) else None)"

section \<open>Calendar arithmetic\<close>

text \<open>
  Day numbers as ECMAScript defines them: \<open>DayFromYear\<close> is the day number of 1 January,
  \<open>MakeDay\<close> adds the days of the months before and the day of the month (a day beyond
  the month's end rolls over into the next month, as the browser's engine does).
  Python's \<open>datetime\<close> uses the same Gregorian rules.
\<close>

definition leap_year :: "nat \<Rightarrow> bool" where
  "leap_year y = (y mod 4 = 0 \<and> (y mod 100 \<noteq> 0 \<or> y mod 400 = 0))"


definition days_before_month :: "nat \<Rightarrow> nat \<Rightarrow> nat" where
  "days_before_month y m =
     [0, 31, 59, 90, 120, 151, 181, 212, 243, 273, 304, 334] ! (m - 1)
       + (if leap_year y \<and> 2 < m then 1 else 0)"

definition DayFromYear :: "nat \<Rightarrow> int" where
  "DayFromYear y =
     365 * (int y - 1970) + (int y - 1969) div 4 - (int y - 1901) div 100
       + (int y - 1601) div 400"

definition MakeDay :: "nat \<Rightarrow> nat \<Rightarrow> nat \<Rightarrow> int" where
  "MakeDay y m d = DayFromYear y + int (days_before_month y m) + int d - 1"

definition MakeTime :: "nat \<Rightarrow> nat \<Rightarrow> nat \<Rightarrow> int" where
  "MakeTime h mi s = int h * 3600000 + int mi * 60000 + int s * 1000"

definition MakeDate :: "int \<Rightarrow> int \<Rightarrow> int" where
  "MakeDate day time = day * 86400000 + time"

section \<open>The browser's Date constructor\<close>

text \<open>
  \<open>js_date_parse s\<close> is the time value (milliseconds) of \<open>new Date(s)\<close>, \<open>None\<close> for an
  Invalid Date (NaN). The hook only builds strings that end in \<open>T00:00:00\<close> or
  \<open>T23:59:59\<close>, so the model covers the date-time strings of that shape: a date part
  \<open>YYYY\<close>, \<open>YYYY-MM\<close> or \<open>YYYY-MM-DD\<close>, the letter T and a time \<open>HH:mm:ss\<close>, read as
  local time in a zone of constant offset (which cancels in every comparison, so it is
  taken as 0). Every other string is an Invalid Date.
\<close>

definition parse_date_part :: "string \<Rightarrow> (nat \<times> nat \<times> nat) option" where
  "parse_date_part s =
     (if length s = 4 then
        (case number_of s of Some y \<Rightarrow> Some (y, 1, 1) | None \<Rightarrow> None)
      else if length s = 7 \<and> s ! 4 = CHR ''-'' then
        (case (number_of (take 4 s), number_of (drop 5 s)) of
           (Some y, Some m) \<Rightarrow> if 1 \<le> m \<and> m \<le> 12 then Some (y, m, 1) else None
         | _ \<Rightarrow> None)
      else if length s = 10 \<and> s ! 4 = CHR ''-'' \<and> s ! 7 = CHR ''-'' then
        (case (number_of (take 4 s), number_of (take 2 (drop 5 s)), number_of (drop 8 s)) of
           (Some y, Some m, Some d) \<Rightarrow>
             if 1 \<le> m \<and> m \<le> 12 \<and> 1 \<le> d \<and> d \<le> 31 then Some (y, m, d) else None
         | _ \<Rightarrow> None)
      else None)"

definition parse_time_part :: "string \<Rightarrow> (nat \<times> nat \<times> nat) option" where
  "parse_time_part s =
     (if length s = 8 \<and> s ! 2 = CHR '':'' \<and> s ! 5 = CHR '':'' then
        (case (number_of (take 2 s), number_of (take 2 (drop 3 s)), number_of (drop 6 s)) of
           (Some h, Some mi, Some se) \<Rightarrow>
             if (h \<le> 23 \<and> mi \<le> 59 \<and> se \<le> 59) \<or> (h = 24 \<and> mi = 0 \<and> se = 0)
             then Some (h, mi, se) else None
         | _ \<Rightarrow> None)
      else None)"

definition js_date_parse :: "string \<Rightarrow> int option" where
  "js_date_parse s =
     (let n = length s in
      if n < 9 \<or> s ! (n - 9) \<noteq> CHR ''T'' then None
      else (case (parse_date_part (take (n - 9) s), parse_time_part (drop (n - 8) s)) of
              (Some (y, m, d), Some (h, mi, se)) \<Rightarrow>
                Some (MakeDate (MakeDay y m d) (MakeTime h mi se))
            | _ \<Rightarrow> None))"

text \<open>
  The relational operators on two Date objects compare their time values; a comparison
  with NaN is false.
\<close>

definition date_ge :: "int option \<Rightarrow> int option \<Rightarrow> bool" where
  "date_ge a b = (case (a, b) of (Some x, Some y) \<Rightarrow> y \<le> x | _ \<Rightarrow> False)"

definition date_le :: "int option \<Rightarrow> int option \<Rightarrow> bool" where
  "date_le a b = (case (a, b) of (Some x, Some y) \<Rightarrow> x \<le> y | _ \<Rightarrow> False)"

section \<open>JSON values in the page\<close>

text \<open>
  The value that \<open>JSON.parse\<close> or \<open>Response.json()\<close> hands to the hook. A number carries
  the text that JavaScript's number-to-string conversion gives it; an object is the list of
  its members in the order of the text, a later member replacing an earlier one of the
  same name. The JavaScript value \<open>undefined\<close> is \<open>None\<close> of type \<open>json option\<close>.
\<close>

datatype json =
    JNull
  | JBool bool
  | JNum string
  | JStr string
  | JArr "json list"
  | JObj "(string \<times> json) list"

definition own_property :: "(string \<times> json) list \<Rightarrow> string \<Rightarrow> json option" where
  "own_property ps k = map_of (rev ps) k"

text \<open>\<open>json?.ScheduleDays\<close>: undefined unless \<open>json\<close> is an object with that member.\<close>

definition ScheduleDays :: "json \<Rightarrow> json option" where
  "ScheduleDays j = (case j of JObj ps \<Rightarrow> own_property ps ''ScheduleDays'' | _ \<Rightarrow> None)"

definition isArray :: "json option \<Rightarrow> bool" where
  "isArray v = (case v of Some (JArr xs) \<Rightarrow> True | _ \<Rightarrow> False)"

definition elements :: "json option \<Rightarrow> json list" where
  "elements v = (case v of Some (JArr xs) \<Rightarrow> xs | _ \<Rightarrow> [])"

text \<open>
  String conversion, as string concatenation applies it; \<open>None\<close> is a thrown TypeError
  (an object whose own member \<open>toString\<close> hides the inherited method). An array is the
  comma-joined conversion of its elements, \<open>null\<close> elements giving the empty string.
\<close>

fun ToString :: "json \<Rightarrow> string option"
  and join_elems :: "json list \<Rightarrow> string option" where
  "ToString JNull = Some ''null''"
| "ToString (JBool b) = Some (if b then ''true'' else ''false'')"
| "ToString (JNum t) = Some t"
| "ToString (JStr s) = Some s"
| "ToString (JArr xs) = join_elems xs"
| "ToString (JObj ps) =
     (if own_property ps ''toString'' \<noteq> None then None else Some ''[object Object]'')"
| "join_elems [] = Some []"
| "join_elems (x # xs) =
     (case (if x = JNull then Some [] else ToString x) of
        None \<Rightarrow> None
      | Some a \<Rightarrow>
          (if xs = [] then Some a
           else (case join_elems xs of None \<Rightarrow> None | Some b \<Rightarrow> Some (a @ '','' @ b))))"

text \<open>
  \<open>d.Date + 'T00:00:00'\<close> for an element \<open>d\<close> of the array: reading a property of
  \<open>null\<close> throws, a missing property is \<open>undefined\<close>.
\<close>

definition Date_plus :: "json \<Rightarrow> string \<Rightarrow> string option" where
  "Date_plus d suffix =
     (case d of
        JNull \<Rightarrow> None
      | JObj ps \<Rightarrow>
          (case own_property ps ''Date'' of
             None \<Rightarrow> Some (''undefined'' @ suffix)
           | Some v \<Rightarrow> (case ToString v of None \<Rightarrow> None | Some t \<Rightarrow> Some (t @ suffix)))
      | _ \<Rightarrow> Some (''undefined'' @ suffix))"

section \<open>The in-page hook: analyseAvailability\<close>

record hook_config =
  NOTIFY_URL :: string
  REFRESH_URL :: string
  START_DATE :: string
  END_DATE :: string

datatype effect =
    ConsoleLog string
  | ConsoleError string
  | Fetch string
  | SetTimeout nat string

text \<open>The callback of \<open>json.ScheduleDays.filter\<close>; a thrown exception gives false.\<close>

definition in_window :: "hook_config \<Rightarrow> json \<Rightarrow> bool" where
  "in_window cfg d =
     (let s = js_date_parse (START_DATE cfg @ ''T00:00:00'');
          e = js_date_parse (END_DATE cfg @ ''T23:59:59'')
      in (case Date_plus d ''T00:00:00'' of
            None \<Rightarrow> False
          | Some txt \<Rightarrow> date_ge (js_date_parse txt) s \<and> date_le (js_date_parse txt) e))"

definition hasSlots :: "hook_config \<Rightarrow> json \<Rightarrow> bool" where
  "hasSlots cfg j =
     (if START_DATE cfg \<noteq> [] \<and> END_DATE cfg \<noteq> [] \<and> isArray (ScheduleDays j)
      then 0 < length (filter (in_window cfg) (elements (ScheduleDays j)))
      else isArray (ScheduleDays j) \<and> 0 < length (elements (ScheduleDays j)))"

definition analyseAvailability :: "hook_config \<Rightarrow> json \<Rightarrow> effect list" where
  "analyseAvailability cfg j =
     (if hasSlots cfg j
      then [ConsoleLog ''[HOOK] Appointment slots AVAILABLE! Notifying'',
            Fetch (NOTIFY_URL cfg)]
      else [ConsoleLog ''[HOOK] No appointment slots at this time.''])
     @ [SetTimeout 300000 (REFRESH_URL cfg)]"

section \<open>Calendar dates and date ranges, as the specification words them\<close>








section \<open>Slot preferences on disk\<close>

text \<open>
  \<open>slot_prefs.json\<close> as the program writes and reads it: a JSON object with string values,
  kept as the list of its members (a later member of the same name wins, as in
  \<open>json.load\<close>). The file is missing, unreadable (opening or parsing raises), or stored.
\<close>

type_synonym prefs = "(string \<times> string) list"

datatype prefs_file = Missing | Unreadable | Stored prefs

definition dict_get :: "prefs \<Rightarrow> string \<Rightarrow> string \<Rightarrow> string" where
  "dict_get p k dflt = (case map_of (rev p) k of Some v \<Rightarrow> v | None \<Rightarrow> dflt)"

definition load_slot_prefs :: "prefs_file \<Rightarrow> prefs option" where
  "load_slot_prefs f = (case f of Missing \<Rightarrow> None | Unreadable \<Rightarrow> None | Stored p \<Rightarrow> Some p)"


definition APPOINTMENT_URL :: string where
  "APPOINTMENT_URL = ''https://www.usvisascheduling.com/schedule/?reschedule=true''"

text \<open>
  The constants that \<open>inject_fetch_hook\<close> splices into the script: \<open>prefs\<close> is
  \<open>load_slot_prefs() or {}\<close>, and a missing key gives the empty string. The strings are
  spliced between single quotes; the constant is the spliced string itself (as it is for
  every string free of quotes, backslashes and line breaks).
\<close>

definition hook_constants :: "string \<Rightarrow> prefs_file \<Rightarrow> hook_config" where
  "hook_constants notify_url f =
     (let prefs = (case load_slot_prefs f of None \<Rightarrow> [] | Some p \<Rightarrow> if p \<noteq> [] then p else [])
      in \<lparr>NOTIFY_URL = notify_url, REFRESH_URL = APPOINTMENT_URL,
          START_DATE = dict_get prefs ''start_date'' [],
          END_DATE = dict_get prefs ''end_date'' []\<rparr>)"

section \<open>The in-page hook: installation, fetch and XMLHttpRequest\<close>

definition TARGET_SUBSTR :: string where
  "TARGET_SUBSTR =
     ''/custom-actions/?route=/api/v1/schedule-group/get-family-consular-schedule-days''"

text \<open>
  A response body as the hook meets it: \<open>Some j\<close> when it parses as JSON with value \<open>j\<close>,
  \<open>None\<close> when \<open>Response.json()\<close> rejects or \<open>JSON.parse\<close> throws.

  \<open>fetch_hook\<close> is what one wrapper around \<open>fetch\<close> does once the response has arrived;
  \<open>url\<close> is \<open>args[0]?.toString() || ''\<close>. A rejected \<open>json()\<close> promise is swallowed by
  \<open>.catch(()=>{})\<close>, so \<open>analyseAvailability\<close> is not called.
\<close>

definition fetch_hook :: "hook_config \<Rightarrow> string \<Rightarrow> json option \<Rightarrow> effect list" where
  "fetch_hook cfg url body =
     (if contains url TARGET_SUBSTR
      then ConsoleLog ''[HOOK] Captured fetch''
           # (case body of Some j \<Rightarrow> analyseAvailability cfg j | None \<Rightarrow> [])
      else [])"

text \<open>
  An XMLHttpRequest object, as far as the hook touches it: the url that the wrapped \<open>open\<close>
  stored in \<open>__hooked_url__\<close>, and the \<open>load\<close> listeners that the wrapped \<open>send\<close> has added
  (each one a closure over the constants of its installation).
\<close>

record xhr =
  hooked_url :: "string option"
  load_listeners :: "hook_config list"

definition new_xhr :: xhr where
  "new_xhr = \<lparr>hooked_url = None, load_listeners = []\<rparr>"

definition load_listener :: "hook_config \<Rightarrow> xhr \<Rightarrow> json option \<Rightarrow> effect list" where
  "load_listener cfg x body =
     (let url = (case hooked_url x of None \<Rightarrow> [] | Some u \<Rightarrow> u) in
      if contains url TARGET_SUBSTR
      then ConsoleLog ''[HOOK] Captured XHR''
           # (case body of
                Some j \<Rightarrow> analyseAvailability cfg j
              | None \<Rightarrow> [ConsoleError ''[HOOK] Could not parse XHR JSON''])
      else [])"

text \<open>The \<open>load\<close> event runs every registered listener, in the order of registration.\<close>

definition xhr_load :: "xhr \<Rightarrow> json option \<Rightarrow> effect list" where
  "xhr_load x body = concat (map (\<lambda>cfg. load_listener cfg x body) (load_listeners x))"

text \<open>
  The page context: the guard flag \<open>window.__APPT_HOOK_INSTALLED__\<close> and the wrappers that
  installations have put around \<open>window.fetch\<close>, \<open>XMLHttpRequest.prototype.open\<close> and
  \<open>XMLHttpRequest.prototype.send\<close>. A navigation gives a new context.
\<close>

record page_context =
  hook_installed :: bool
  fetch_wrappers :: "hook_config list"
  open_wrappers :: nat
  send_wrappers :: "hook_config list"

definition new_context :: page_context where
  "new_context =
     \<lparr>hook_installed = False, fetch_wrappers = [], open_wrappers = 0, send_wrappers = []\<rparr>"

definition install_hook :: "hook_config \<Rightarrow> page_context \<Rightarrow> page_context" where
  "install_hook cfg ctx =
     (if hook_installed ctx then ctx
      else ctx\<lparr>hook_installed := True,
               fetch_wrappers := cfg # fetch_wrappers ctx,
               open_wrappers := Suc (open_wrappers ctx),
               send_wrappers := cfg # send_wrappers ctx\<rparr>)"

text \<open>
  Calls through the wrapped functions. Each wrapper calls the function it replaced first,
  so the innermost hook acts first.
\<close>

definition window_fetch :: "page_context \<Rightarrow> string \<Rightarrow> json option \<Rightarrow> effect list" where
  "window_fetch ctx url body =
     concat (map (\<lambda>cfg. fetch_hook cfg url body) (rev (fetch_wrappers ctx)))"

definition xhr_open :: "page_context \<Rightarrow> string \<Rightarrow> xhr \<Rightarrow> xhr" where
  "xhr_open ctx url x = (if open_wrappers ctx = 0 then x else x\<lparr>hooked_url := Some url\<rparr>)"

definition xhr_send :: "page_context \<Rightarrow> xhr \<Rightarrow> xhr" where
  "xhr_send ctx x = x\<lparr>load_listeners := load_listeners x @ send_wrappers ctx\<rparr>"

text \<open>Whether a list of effects holds the notification request.\<close>

definition notifies :: "effect list \<Rightarrow> bool" where
  "notifies es = list_ex (\<lambda>e. case e of Fetch u \<Rightarrow> True | _ \<Rightarrow> False) es"

definition notifications :: "effect list \<Rightarrow> nat" where
  "notifications es = length (filter (\<lambda>e. case e of Fetch u \<Rightarrow> True | _ \<Rightarrow> False) es)"

section \<open>Exceptions and events on the Python side\<close>

text \<open>
  An exception raised by a call into the browser driver or the solving service:
  \<open>AttributeError\<close>, which \<open>is_login_required\<close> handles on its own, or any other subclass
  of \<open>Exception\<close>. A call's outcome is \<open>Inl\<close> of the exception or \<open>Inr\<close> of the value.
  Interrupts and task cancellation end the process from outside and are not modelled.
\<close>

datatype exn = AttributeError | DriverError

datatype event =
    Poll
  | Sleep nat
  | SolveCall string
  | ServiceRequest string

definition MAX_RETRIES :: nat where
  "MAX_RETRIES = 5"

definition RETRY_DELAY_SECONDS :: nat where
  "RETRY_DELAY_SECONDS = 2"

section \<open>Page inspection\<close>

text \<open>
  What one inspection of the page answers: the \<open>url\<close> attribute, \<open>location.href\<close>, whether
  a password input is found, and the \<open>style\<close> attribute of the body (\<open>None\<close> is Python's
  \<open>None\<close>).
\<close>

record page =
  url_attr :: "exn + string option"
  location_href :: "exn + string option"
  password_input :: "exn + bool"
  body_style :: "exn + string option"

text \<open>\<open>s and p in s\<close> for an optional string \<open>s\<close>.\<close>

definition truthy_contains :: "string option \<Rightarrow> string \<Rightarrow> bool" where
  "truthy_contains s p = (case s of None \<Rightarrow> False | Some t \<Rightarrow> t \<noteq> [] \<and> contains t p)"

definition current_url :: "page \<Rightarrow> exn + string option" where
  "current_url p = (case url_attr p of Inl AttributeError \<Rightarrow> location_href p | r \<Rightarrow> r)"

definition is_login_required :: "page \<Rightarrow> exn + bool" where
  "is_login_required p =
     (case current_url p of
        Inl e \<Rightarrow> Inl e
      | Inr u \<Rightarrow>
          if truthy_contains u ''b2clogin.com'' then Inr True
          else (case password_input p of Inl e \<Rightarrow> Inl e | Inr found \<Rightarrow> Inr found))"

definition is_waiting_room :: "page \<Rightarrow> bool" where
  "is_waiting_room p =
     (case body_style p of
        Inl e \<Rightarrow> False
      | Inr style_attr \<Rightarrow> truthy_contains style_attr ''waiting_room_background_en-US.png'')"

text \<open>
  The waiting-room loop of \<open>main\<close>, run against the successive observations of the page:
  it sleeps 5 seconds after every observation that shows the waiting room and ends at the
  first that does not. The flag is false when the observations run out with the loop still
  polling.
\<close>

fun waiting_room_loop :: "page list \<Rightarrow> event list \<times> bool" where
  "waiting_room_loop [] = ([], False)"
| "waiting_room_loop (p # ps) =
     (if is_waiting_room p
      then (case waiting_room_loop ps of (es, released) \<Rightarrow> (Sleep 5 # es, released))
      else ([], True))"

text \<open>
  The states of a page, named as the specification names them. \<open>main\<close> has no classifier
  of its own: it tests \<open>is_waiting_room\<close> first and \<open>is_login_required\<close> after it, and
  \<open>classify\<close> is the outcome of these two tests on one observation.
\<close>

datatype PageState = WaitingRoom | LoginChallenge | SchedulingPage | Unknown

definition classify :: "page \<Rightarrow> exn + PageState" where
  "classify p =
     (if is_waiting_room p then Inr WaitingRoom
      else (case is_login_required p of
              Inl e \<Rightarrow> Inl e
            | Inr True \<Rightarrow> Inr LoginChallenge
            | Inr False \<Rightarrow> Inr SchedulingPage))"

section \<open>The top-level flow\<close>

text \<open>
  What the environment answers during one run of \<open>main\<close> after the preferences are
  settled: whether starting the browser and opening the page raises, the observations of
  the two waiting-room loops, the page at the login check, the outcome of
  \<open>bring_to_front\<close> and of \<open>perform_login\<close> (its success flag, or the exception that
  escapes it), and whether the final navigation raises.
\<close>

record session =
  startup :: "exn option"
  before_login :: "page list"
  at_login_check :: page
  bring_to_front :: "exn option"
  perform_login :: "exn + bool"
  after_login :: "page list"
  navigation :: "exn option"

text \<open>
  How a run ends: an exception leaves \<open>main\<close> and ends the process, or the run stays in a
  waiting-room loop, or it reaches the idle loop (with the hook supervisor started or not).
\<close>

datatype outcome = Raised exn | WaitingRoomPolling | Idle bool

definition to_appointment_page :: "session \<Rightarrow> outcome" where
  "to_appointment_page s = Idle (navigation s = None)"

definition main :: "session \<Rightarrow> outcome" where
  "main s =
     (case startup s of
        Some e \<Rightarrow> Raised e
      | None \<Rightarrow>
          if \<not> snd (waiting_room_loop (before_login s)) then WaitingRoomPolling
          else (case is_login_required (at_login_check s) of
                  Inl e \<Rightarrow> Raised e
                | Inr False \<Rightarrow> to_appointment_page s
                | Inr True \<Rightarrow>
                    (case bring_to_front s of
                       Some e \<Rightarrow> Raised e
                     | None \<Rightarrow>
                         (case perform_login s of
                            Inl e \<Rightarrow> Raised e
                          | Inr False \<Rightarrow> to_appointment_page s
                          | Inr True \<Rightarrow>
                              if \<not> snd (waiting_room_loop (after_login s))
                              then WaitingRoomPolling
                              else to_appointment_page s))))"

section \<open>Captcha extraction and solving\<close>

text \<open>
  What the page answers during one polling attempt of the extractor: whether
  \<open>#captchaImage\<close> is found, its \<open>src\<close> attribute, and the base64 text of the element's
  screenshot.
\<close>

record captcha_probe =
  captcha_img :: "exn + bool"
  src_attr :: "exn + string option"
  screenshot_b64 :: "exn + string"

datatype probe_result = NotReady | Failed | Found string

definition probe_once :: "captcha_probe \<Rightarrow> probe_result" where
  "probe_once pr =
     (case captcha_img pr of
        Inl e \<Rightarrow> Failed
      | Inr False \<Rightarrow> NotReady
      | Inr True \<Rightarrow>
          (case src_attr pr of
             Inl e \<Rightarrow> Failed
           | Inr None \<Rightarrow> NotReady
           | Inr (Some src) \<Rightarrow>
               if src = [] \<or> startswith src ''data:image/gif'' then NotReady
               else (case screenshot_b64 pr of
                       Inl e \<Rightarrow> Failed
                     | Inr b64 \<Rightarrow> Found (''data:image/png;base64,'' @ b64))))"

fun extract_attempts :: "(nat \<Rightarrow> captcha_probe) \<Rightarrow> nat list \<Rightarrow> event list \<times> string option" where
  "extract_attempts page [] = ([], None)"
| "extract_attempts page (attempt # rest) =
     (case probe_once (page attempt) of
        Found data_url \<Rightarrow> ([Poll], Some data_url)
      | NotReady \<Rightarrow>
          (case extract_attempts page rest of
             (es, r) \<Rightarrow> (Poll # Sleep RETRY_DELAY_SECONDS # es, r))
      | Failed \<Rightarrow>
          (case extract_attempts page rest of
             (es, r) \<Rightarrow>
               (Poll # (if attempt < MAX_RETRIES - 1 then [Sleep RETRY_DELAY_SECONDS] else [])
                  @ es, r)))"

definition extract_captcha_data_url :: "(nat \<Rightarrow> captcha_probe) \<Rightarrow> event list \<times> string option" where
  "extract_captcha_data_url page = extract_attempts page [0..<MAX_RETRIES]"

text \<open>
  The solving service: the API key of the environment, and the answer to the request of
  each attempt, the stripped text of the reply or the exception raised on the way.
\<close>

record solver_env =
  api_key :: "string option"
  service :: "nat \<Rightarrow> exn + string"

fun solve_attempts :: "(nat \<Rightarrow> exn + string) \<Rightarrow> string \<Rightarrow> nat list \<Rightarrow> event list \<times> string option" where
  "solve_attempts svc data_url [] = ([], None)"
| "solve_attempts svc data_url (attempt # rest) =
     (case svc attempt of
        Inr captcha_text \<Rightarrow> ([ServiceRequest data_url], Some captcha_text)
      | Inl e \<Rightarrow>
          if attempt < MAX_RETRIES - 1
          then (case solve_attempts svc data_url rest of
                  (es, r) \<Rightarrow>
                    (ServiceRequest data_url
                       # Sleep (RETRY_DELAY_SECONDS * (attempt + 1)) # es, r))
          else ([ServiceRequest data_url], None))"

definition solve_captcha_with_openai :: "solver_env \<Rightarrow> string \<Rightarrow> event list \<times> string option" where
  "solve_captcha_with_openai env data_url =
     (case api_key env of
        None \<Rightarrow> ([], None)
      | Some k \<Rightarrow>
          if k = [] then ([], None)
          else solve_attempts (service env) data_url [0..<MAX_RETRIES])"

text \<open>
  One call of \<open>attempt_captcha_solve\<close>: the registry of attempts per image (the function
  attribute \<open>_attempt_registry\<close>, empty when first used) goes in and comes out. The debug
  copy of the image is written inside a \<open>try\<close> and leaves no trace here.
\<close>

type_synonym registry = "string \<Rightarrow> nat option"

record captcha_round =
  probes :: "nat \<Rightarrow> captcha_probe"
  solver :: solver_env
  response_input :: "exn + bool"
  send_keys :: "exn option"

definition registry_get :: "registry \<Rightarrow> string \<Rightarrow> nat" where
  "registry_get reg k = (case reg k of None \<Rightarrow> 0 | Some n \<Rightarrow> n)"

definition fill_response :: "captcha_round \<Rightarrow> exn + bool" where
  "fill_response r =
     (case response_input r of
        Inl e \<Rightarrow> Inl e
      | Inr False \<Rightarrow> Inr False
      | Inr True \<Rightarrow> (case send_keys r of Some e \<Rightarrow> Inl e | None \<Rightarrow> Inr True))"

definition attempt_captcha_solve ::
    "registry \<Rightarrow> captcha_round \<Rightarrow> registry \<times> event list \<times> (exn + bool)" where
  "attempt_captcha_solve reg r =
     (case extract_captcha_data_url (probes r) of
        (es1, None) \<Rightarrow> (reg, es1, Inr False)
      | (es1, Some data_url) \<Rightarrow>
          if MAX_RETRIES \<le> registry_get reg data_url then (reg, es1, Inr False)
          else (case solve_captcha_with_openai (solver r) data_url of
                  (es2, captcha_text) \<Rightarrow>
                    (reg(data_url \<mapsto> registry_get reg data_url + 1),
                     es1 @ SolveCall data_url # es2,
                     (case captcha_text of
                        None \<Rightarrow> Inr False
                      | Some t \<Rightarrow> if t = [] then Inr False else fill_response r))))"

text \<open>Successive calls in one process share the registry.\<close>

fun captcha_rounds :: "registry \<Rightarrow> captcha_round list \<Rightarrow> registry \<times> event list" where
  "captcha_rounds reg [] = (reg, [])"
| "captcha_rounds reg (r # rs) =
     (case attempt_captcha_solve reg r of
        (reg', es, res) \<Rightarrow>
          (case captcha_rounds reg' rs of (reg'', es') \<Rightarrow> (reg'', es @ es')))"

definition count_event :: "event \<Rightarrow> event list \<Rightarrow> nat" where
  "count_event e es = length (filter (\<lambda>x. x = e) es)"

section \<open>Shapes of retry traces, as the specification words them\<close>

text \<open>
  \<open>polls_apart d es\<close>: the trace is a run of polling attempts with exactly one sleep of
  \<open>d\<close> seconds between consecutive attempts (a last sleep may follow the last attempt).
  \<open>backoff u k es\<close>: the trace is a run of service requests for the image \<open>u\<close> in which
  the failure of attempt number \<open>k\<close>, \<open>k + 1\<close>, ... is followed by a sleep of
  \<open>RETRY_DELAY_SECONDS\<close> times the attempt number.
\<close>

fun polls_apart :: "nat \<Rightarrow> event list \<Rightarrow> bool" where
  "polls_apart d [] = True"
| "polls_apart d [Poll] = True"
| "polls_apart d (Poll # Sleep n # es) = (n = d \<and> polls_apart d es)"
| "polls_apart d es = False"

fun backoff :: "string \<Rightarrow> nat \<Rightarrow> event list \<Rightarrow> bool" where
  "backoff u k [] = True"
| "backoff u k [ServiceRequest v] = (v = u)"
| "backoff u k (ServiceRequest v # Sleep n # es) =
     (v = u \<and> n = RETRY_DELAY_SECONDS * k \<and> backoff u (Suc k) es)"
| "backoff u k es = False"

section \<open>The first-run prompt\<close>









section \<open>A request object that is sent twice\<close>

text \<open>
  The scenario of claim C2: the hook, with a date range for March 2025, is injected twice
  into a fresh context; a page script creates one XMLHttpRequest, opens it on the
  schedule-days address and sends it, and after the response opens and sends the same
  object again. Both responses offer 10 March 2025.
\<close>

definition march_hook :: hook_config where
  "march_hook =
     hook_constants ''https://api.telegram.org/''
       (Stored [(''start_date'', ''2025-03-01''), (''end_date'', ''2025-03-31'')])"

definition injected_twice :: page_context where
  "injected_twice = install_hook march_hook (install_hook march_hook new_context)"

definition schedule_days_url :: string where
  "schedule_days_url =
     ''/custom-actions/?route=/api/v1/schedule-group/get-family-consular-schedule-days''"

definition march_response :: "json option" where
  "march_response =
     Some (JObj [(''ScheduleDays'', JArr [JObj [(''Date'', JStr ''2025-03-10'')]])])"

definition sent_once :: xhr where
  "sent_once = xhr_send injected_twice (xhr_open injected_twice schedule_days_url new_xhr)"

definition sent_twice :: xhr where
  "sent_twice = xhr_send injected_twice (xhr_open injected_twice schedule_days_url sent_once)"

section \<open>Day numbers follow the calendar\<close>

































lemma hasSlots_unfiltered:
  assumes "START_DATE cfg = [] \<or> END_DATE cfg = []"
  shows "hasSlots cfg j = (case ScheduleDays j of Some (JArr D) \<Rightarrow> D \<noteq> [] | _ \<Rightarrow> False)"
  using assms by (auto simp add: hasSlots_def isArray_def elements_def split: option.splits json.splits)


section \<open>Claim C1: the date filter of the availability check\<close>





section \<open>Claim C7: malformed bodies never notify\<close>


lemma notifies_append [simp]: "notifies (xs @ ys) = (notifies xs \<or> notifies ys)"
  by (simp add: notifies_def)

lemma notifies_Nil [simp]: "\<not> notifies []"
  by (simp add: notifies_def)


lemma notifies_analyse: "notifies (analyseAvailability cfg j) = hasSlots cfg j"
  by (simp add: analyseAvailability_def notifies_def)






section \<open>Claim C9: a one-sided date range filters nothing\<close>

text \<open>
  Claim C9. If exactly one of \<open>start_date\<close> and \<open>end_date\<close> of the stored preferences is a
  non-empty string and the other is empty or absent, the hook filters nothing: availability
  holds iff the raw \<open>ScheduleDays\<close> list is non-empty, exactly as with both dates empty.
\<close>

theorem one_sided_range_is_unfiltered:
  assumes "(dict_get p ''start_date'' [] \<noteq> [] \<and> dict_get p ''end_date'' [] = [])
         \<or> (dict_get p ''start_date'' [] = [] \<and> dict_get p ''end_date'' [] \<noteq> [])"
  shows "hasSlots (hook_constants n (Stored p)) j
           = (case ScheduleDays j of Some (JArr D) \<Rightarrow> D \<noteq> [] | _ \<Rightarrow> False)
       \<and> hasSlots (hook_constants n (Stored p)) j
           = hasSlots (hook_constants n (Stored [(''start_date'', []), (''end_date'', [])])) j"
proof -
  have ne: "p \<noteq> []" using assms by (auto simp: dict_get_def)
  have one: "START_DATE (hook_constants n (Stored p)) = [] \<or> END_DATE (hook_constants n (Stored p)) = []"
    using assms ne by (auto simp add: hook_constants_def load_slot_prefs_def)
  have none: "START_DATE (hook_constants n (Stored [(''start_date'', []), (''end_date'', [])])) = []"
    by (simp add: hook_constants_def load_slot_prefs_def dict_get_def)
  show ?thesis
    using hasSlots_unfiltered[of "hook_constants n (Stored p)" j, OF one]
      hasSlots_unfiltered[of "hook_constants n (Stored [(''start_date'', []), (''end_date'', [])])" j]
      none by simp
qed

theorem one_sided_range_is_unfiltered_witness:
  "dict_get [(''start_date'', ''2025-03-01'')] ''start_date'' [] \<noteq> []
   \<and> dict_get [(''start_date'', ''2025-03-01'')] ''end_date'' [] = []
   \<and> hasSlots (hook_constants ''n'' (Stored [(''start_date'', ''2025-03-01'')]))
        (JObj [(''ScheduleDays'', JArr [JObj [(''Date'', JStr ''2031-01-01'')]])])"
proof -
  have h: "dict_get [(''start_date'', ''2025-03-01'')] ''start_date'' [] \<noteq> []
         \<and> dict_get [(''start_date'', ''2025-03-01'')] ''end_date'' [] = []"
    by (simp add: dict_get_def)
  then have h': "(dict_get [(''start_date'', ''2025-03-01'')] ''start_date'' [] \<noteq> []
           \<and> dict_get [(''start_date'', ''2025-03-01'')] ''end_date'' [] = [])
         \<or> (dict_get [(''start_date'', ''2025-03-01'')] ''start_date'' [] = []
           \<and> dict_get [(''start_date'', ''2025-03-01'')] ''end_date'' [] \<noteq> [])"
    by blast
  have "hasSlots (hook_constants ''n'' (Stored [(''start_date'', ''2025-03-01'')]))
        (JObj [(''ScheduleDays'', JArr [JObj [(''Date'', JStr ''2031-01-01'')]])])"
    using one_sided_range_is_unfiltered[OF h', where n = "''n''"
        and j = "JObj [(''ScheduleDays'', JArr [JObj [(''Date'', JStr ''2031-01-01'')]])]"]
    by (simp add: ScheduleDays_def own_property_def)
  with h show ?thesis by blast
qed

section \<open>Claim C2: one hook per page context, one analysis per response\<close>

text \<open>
  The installer is idempotent: a second installation into the same context finds the guard
  flag set and changes nothing, so a context that starts fresh holds exactly one wrapper
  around \<open>fetch\<close>, \<open>open\<close> and \<open>send\<close>, and a response observed through \<open>fetch\<close> is
  analysed once.
\<close>


lemma install_hook_idem: "install_hook c2 (install_hook c1 ctx) = install_hook c1 ctx"
  by (simp add: install_hook_def)

lemma install_hook_new_context:
  "install_hook c2 (install_hook c1 new_context)
     = \<lparr>hook_installed = True, fetch_wrappers = [c1], open_wrappers = 1, send_wrappers = [c1]\<rparr>"
  by (simp add: install_hook_def new_context_def)

lemma notifications_append [simp]:
  "notifications (xs @ ys) = notifications xs + notifications ys"
  by (simp add: notifications_def)

lemma notifications_Cons [simp]:
  "notifications (e # es) = (case e of Fetch u \<Rightarrow> 1 | _ \<Rightarrow> 0) + notifications es"
  by (cases e) (simp_all add: notifications_def)

lemma notifications_Nil [simp]: "notifications [] = 0"
  by (simp add: notifications_def)

lemma notifications_analyse:
  "notifications (analyseAvailability cfg j) = (if hasSlots cfg j then 1 else 0)"
  by (simp add: analyseAvailability_def notifications_def)

lemma window_fetch_once:
  "notifications (window_fetch (install_hook c2 (install_hook c1 new_context)) url body) \<le> 1"
proof -
  have "notifications (fetch_hook c1 url body) \<le> 1"
  proof (cases body)
    case None
    then show ?thesis by (simp add: fetch_hook_def notifications_def)
  next
    case (Some j)
    have "notifications (ConsoleLog ''[HOOK] Captured fetch'' # analyseAvailability c1 j)
          = notifications (analyseAvailability c1 j)"
      by (simp add: notifications_def)
    then show ?thesis using Some
      by (simp add: fetch_hook_def notifications_analyse)
  qed
  then show ?thesis
    by (simp add: install_hook_new_context window_fetch_def)
qed

lemma target_url_matches: "contains schedule_days_url TARGET_SUBSTR"
  by (simp add: schedule_days_url_def TARGET_SUBSTR_def)

lemmas eval_hook =
  hasSlots_def in_window_def js_date_parse_def parse_date_part_def parse_time_part_def
  number_of_def is_digit_def digit_val_def Date_plus_def own_property_def ScheduleDays_def
  isArray_def elements_def date_ge_def date_le_def MakeDate_def MakeDay_def MakeTime_def
  DayFromYear_def days_before_month_def leap_year_def analyseAvailability_def
  hook_constants_def load_slot_prefs_def dict_get_def

lemma march_slot_available:
  "hasSlots march_hook (JObj [(''ScheduleDays'', JArr [JObj [(''Date'', JStr ''2025-03-10'')]])])"
  by (simp add: march_hook_def eval_hook)

text \<open>
  Claim C2. Installing the hook twice is a no-op the second time, and the side effects of
  the hook fire once per qualifying response. The first half holds (\<open>install_hook_idem\<close>).
  The second half fails for XMLHttpRequest: the wrapped \<open>send\<close> adds a new \<open>load\<close> listener
  on every call, so a request object that the page opens and sends a second time carries
  two listeners, and its second response is analysed, and notified, twice, although the
  hook was installed into the context only once in effect.
\<close>

theorem xhr_reuse_notifies_twice:
  "injected_twice = install_hook march_hook new_context
   \<and> notifications (xhr_load sent_once march_response) = 1
   \<and> notifications (xhr_load sent_twice march_response) = 2"
proof -
  have ctx: "injected_twice
      = \<lparr>hook_installed = True, fetch_wrappers = [march_hook], open_wrappers = 1,
         send_wrappers = [march_hook]\<rparr>"
    by (simp add: injected_twice_def install_hook_new_context)
  have once: "sent_once
      = \<lparr>hooked_url = Some schedule_days_url, load_listeners = [march_hook]\<rparr>"
    by (simp add: sent_once_def ctx xhr_send_def xhr_open_def new_xhr_def)
  have twice: "sent_twice
      = \<lparr>hooked_url = Some schedule_days_url, load_listeners = [march_hook, march_hook]\<rparr>"
    by (simp add: sent_twice_def once ctx xhr_send_def xhr_open_def)
  have one: "notifications (load_listener march_hook x march_response) = 1"
    if "hooked_url x = Some schedule_days_url" for x
    using that march_slot_available
    by (simp add: load_listener_def target_url_matches march_response_def notifications_analyse)
  have "injected_twice = install_hook march_hook new_context"
    by (simp add: injected_twice_def install_hook_idem)
  moreover have "notifications (xhr_load sent_once march_response) = 1"
    by (simp add: xhr_load_def once one)
  moreover have "notifications (xhr_load sent_twice march_response) = 2"
    by (simp add: xhr_load_def twice one)
  ultimately show ?thesis by simp
qed

section \<open>Claim C4: the order of the page tests\<close>

lemma classify_main:
  assumes "startup s = None" "before_login s = [p]" "at_login_check s = p"
  shows "(classify p = Inr WaitingRoom \<longrightarrow> main s = WaitingRoomPolling)
       \<and> (classify p = Inr SchedulingPage \<longrightarrow> main s = to_appointment_page s)
       \<and> (classify p = Inl e \<longrightarrow> main s = Raised e)"
  using assms
  by (auto simp add: classify_def main_def split: sum.splits bool.splits if_splits)

text \<open>
  Claim C4 says that the identity-provider domain and the password input are tested before
  the waiting-room background, so that a page showing both is a LoginChallenge. In the
  program the waiting-room loop comes first: a page that shows the waiting-room background
  is a WaitingRoom whatever its address and inputs are.
\<close>

theorem waiting_room_beats_login_counterexample:
  "truthy_contains (Some ''https://atlasauth.b2clogin.com/signin'') ''b2clogin.com''
   \<and> classify \<lparr>url_attr = Inr (Some ''https://atlasauth.b2clogin.com/signin''),
               location_href = Inr (Some ''https://atlasauth.b2clogin.com/signin''),
               password_input = Inr True,
               body_style = Inr (Some ''background-image: url(/waiting_room_background_en-US.png)'')\<rparr>
     = Inr WaitingRoom"
  by (simp add: classify_def is_waiting_room_def truthy_contains_def)

text \<open>
  Claim C4, as amended. The tests are applied in the order: waiting-room background in the
  body style, then WaitingRoom; else identity-provider domain in the address, then
  LoginChallenge; else a password input present, then LoginChallenge; else SchedulingPage.
  The first match wins, so \<open>main\<close> stays in the waiting-room loop on a page that shows the
  background together with a login signal.
\<close>

theorem classification_order:
  "(is_waiting_room p \<longrightarrow> classify p = Inr WaitingRoom)
   \<and> (\<not> is_waiting_room p \<and> current_url p = Inr u \<and> truthy_contains u ''b2clogin.com''
        \<longrightarrow> classify p = Inr LoginChallenge)
   \<and> (\<not> is_waiting_room p \<and> current_url p = Inr u \<and> \<not> truthy_contains u ''b2clogin.com''
        \<and> password_input p = Inr True \<longrightarrow> classify p = Inr LoginChallenge)
   \<and> (\<not> is_waiting_room p \<and> current_url p = Inr u \<and> \<not> truthy_contains u ''b2clogin.com''
        \<and> password_input p = Inr False \<longrightarrow> classify p = Inr SchedulingPage)
   \<and> (startup s = None \<and> before_login s = [p] \<and> is_waiting_room p
        \<longrightarrow> main s = WaitingRoomPolling)"
  by (auto simp add: classify_def is_login_required_def main_def)

theorem classification_order_witness:
  "is_waiting_room \<lparr>url_attr = Inr (Some ''https://atlasauth.b2clogin.com/signin''),
               location_href = Inr (Some ''https://atlasauth.b2clogin.com/signin''),
               password_input = Inr True,
               body_style = Inr (Some ''background-image: url(/waiting_room_background_en-US.png)'')\<rparr>
   \<and> classify \<lparr>url_attr = Inr (Some ''https://atlasauth.b2clogin.com/signin''),
               location_href = Inr (Some ''https://atlasauth.b2clogin.com/signin''),
               password_input = Inr True,
               body_style = Inr (Some ''background-image: url(/waiting_room_background_en-US.png)'')\<rparr>
     = Inr WaitingRoom
   \<and> \<not> is_waiting_room \<lparr>url_attr = Inr (Some ''https://atlasauth.b2clogin.com/signin''),
               location_href = Inr None, password_input = Inr False, body_style = Inr None\<rparr>
   \<and> classify \<lparr>url_attr = Inr (Some ''https://atlasauth.b2clogin.com/signin''),
               location_href = Inr None, password_input = Inr False, body_style = Inr None\<rparr>
     = Inr LoginChallenge"
proof -
  let ?w = "\<lparr>url_attr = Inr (Some ''https://atlasauth.b2clogin.com/signin''),
               location_href = Inr (Some ''https://atlasauth.b2clogin.com/signin''),
               password_input = Inr True,
               body_style = Inr (Some ''background-image: url(/waiting_room_background_en-US.png)'')\<rparr>"
  let ?l = "\<lparr>url_attr = Inr (Some ''https://atlasauth.b2clogin.com/signin''),
               location_href = Inr None, password_input = Inr False, body_style = Inr None\<rparr>"
  have w: "is_waiting_room ?w"
    by (simp add: is_waiting_room_def truthy_contains_def)
  have l: "\<not> is_waiting_room ?l" "current_url ?l = Inr (Some ''https://atlasauth.b2clogin.com/signin'')"
    "truthy_contains (Some ''https://atlasauth.b2clogin.com/signin'') ''b2clogin.com''"
    by (simp_all add: is_waiting_room_def truthy_contains_def current_url_def)
  have "classify ?w = Inr WaitingRoom"
    using classification_order[where p = ?w] w by blast
  moreover have "classify ?l = Inr LoginChallenge"
    using classification_order[where p = ?l and u = "Some ''https://atlasauth.b2clogin.com/signin''"] l
    by blast
  ultimately show ?thesis using w l by blast
qed

section \<open>Claim C8: a failed inspection of the page\<close>




section \<open>Claim C3: exceptions that leave the top-level flow\<close>

lemma navigation_failure_is_swallowed:
  assumes "startup s = None" "before_login s = [p]" "\<not> is_waiting_room p"
    and "is_login_required (at_login_check s) = Inr False" "navigation s = Some e"
  shows "main s = Idle False"
  using assms by (simp add: main_def to_appointment_page_def)

text \<open>
  Claim C3. No component failure passes the top-level flow. \<open>main\<close> wraps the final
  navigation in \<open>try\<close>, and \<open>is_waiting_room\<close> catches its own failures, but the calls of
  \<open>is_login_required\<close> and \<open>perform_login\<close> are not wrapped: when the search for the
  password input raises, or when an exception escapes \<open>perform_login\<close>, it leaves \<open>main\<close>
  and ends the run.
\<close>

theorem login_check_failure_ends_main:
  "main \<lparr>startup = None,
         before_login = [\<lparr>url_attr = Inr (Some ''https://www.usvisascheduling.com/''),
                          location_href = Inr (Some ''https://www.usvisascheduling.com/''),
                          password_input = Inr False, body_style = Inr None\<rparr>],
         at_login_check = \<lparr>url_attr = Inr (Some ''https://www.usvisascheduling.com/''),
                           location_href = Inr (Some ''https://www.usvisascheduling.com/''),
                           password_input = Inl DriverError, body_style = Inr None\<rparr>,
         bring_to_front = None, perform_login = Inr True, after_login = [],
         navigation = None\<rparr> = Raised DriverError
   \<and> main \<lparr>startup = None,
         before_login = [\<lparr>url_attr = Inr (Some ''https://www.usvisascheduling.com/''),
                          location_href = Inr (Some ''https://www.usvisascheduling.com/''),
                          password_input = Inr True, body_style = Inr None\<rparr>],
         at_login_check = \<lparr>url_attr = Inr (Some ''https://www.usvisascheduling.com/''),
                           location_href = Inr (Some ''https://www.usvisascheduling.com/''),
                           password_input = Inr True, body_style = Inr None\<rparr>,
         bring_to_front = None, perform_login = Inl DriverError, after_login = [],
         navigation = None\<rparr> = Raised DriverError"
  by (simp add: main_def is_waiting_room_def truthy_contains_def is_login_required_def
      current_url_def)

section \<open>Claim C5: bounded retries of the extractor and the solver\<close>


lemma count_event_Cons [simp]:
  "count_event e (x # xs) = (if x = e then 1 else 0) + count_event e xs"
  by (simp add: count_event_def)

lemma count_event_Nil [simp]: "count_event e [] = 0"
  by (simp add: count_event_def)

lemma count_event_append [simp]:
  "count_event e (xs @ ys) = count_event e xs + count_event e ys"
  by (simp add: count_event_def)

lemma extract_attempts_upt:
  assumes "a \<le> MAX_RETRIES"
  shows "case extract_attempts page [a..<MAX_RETRIES] of
           (es, r) \<Rightarrow>
             count_event Poll es \<le> MAX_RETRIES - a
           \<and> (r = None \<longrightarrow> count_event Poll es = MAX_RETRIES - a)
           \<and> polls_apart RETRY_DELAY_SECONDS es"
  using assms
proof (induction "MAX_RETRIES - a" arbitrary: a)
  case 0
  then show ?case by simp
next
  case (Suc n)
  then have lt: "a < MAX_RETRIES" by simp
  then have upt: "[a..<MAX_RETRIES] = a # [Suc a..<MAX_RETRIES]"
    by (simp add: upt_conv_Cons)
  obtain es r where rest: "extract_attempts page [Suc a..<MAX_RETRIES] = (es, r)"
    by (cases "extract_attempts page [Suc a..<MAX_RETRIES]")
  have ih: "count_event Poll es \<le> MAX_RETRIES - Suc a"
      "r = None \<longrightarrow> count_event Poll es = MAX_RETRIES - Suc a"
      "polls_apart RETRY_DELAY_SECONDS es"
    using Suc.hyps(1)[of "Suc a"] Suc.hyps(2) lt rest by auto
  show ?case
  proof (cases "probe_once (page a)")
    case (Found u)
    then show ?thesis using lt by (simp add: upt)
  next
    case NotReady
    then show ?thesis using lt ih rest by (simp add: upt; arith)
  next
    case Failed
    show ?thesis
    proof (cases "a < MAX_RETRIES - 1")
      case True
      then show ?thesis using Failed lt ih rest by (simp add: upt; arith)
    next
      case False
      then have "Suc a = MAX_RETRIES" using lt by simp
      then have "es = []" "r = None" using rest by simp_all
      then show ?thesis using Failed False lt rest by (simp add: upt; arith)
    qed
  qed
qed


lemma solve_attempts_bound:
  "case solve_attempts svc u [0..<MAX_RETRIES] of
     (es, r) \<Rightarrow>
       count_event (ServiceRequest u) es \<le> MAX_RETRIES
     \<and> es \<noteq> []
     \<and> backoff u 1 es
     \<and> (r = None \<longrightarrow>
          es = [ServiceRequest u, Sleep (RETRY_DELAY_SECONDS * 1),
                ServiceRequest u, Sleep (RETRY_DELAY_SECONDS * 2),
                ServiceRequest u, Sleep (RETRY_DELAY_SECONDS * 3),
                ServiceRequest u, Sleep (RETRY_DELAY_SECONDS * 4),
                ServiceRequest u])"
proof -
  have upt: "[0..<MAX_RETRIES] = [0, 1, 2, 3, 4]"
    by (simp add: MAX_RETRIES_def upt_rec)
  show ?thesis
    unfolding upt
    by (simp add: MAX_RETRIES_def split: sum.splits)
qed

text \<open>
  Claim C5. Whatever the page and the service answer, the extractor polls at most
  \<open>MAX_RETRIES\<close> = 5 times, with one sleep of \<open>RETRY_DELAY_SECONDS\<close> = 2 between consecutive
  polls, and has polled exactly 5 times when it returns None; the solver sends at most 5
  requests, sleeps \<open>RETRY_DELAY_SECONDS\<close> times the attempt number after each failure but
  the last, and returns None only without a request (no API key) or after 5 failed ones.
\<close>

theorem bounded_retries:
  "count_event Poll (fst (extract_captcha_data_url page)) \<le> MAX_RETRIES
   \<and> (snd (extract_captcha_data_url page) = None \<longrightarrow>
        count_event Poll (fst (extract_captcha_data_url page)) = MAX_RETRIES)
   \<and> polls_apart RETRY_DELAY_SECONDS (fst (extract_captcha_data_url page))
   \<and> count_event (ServiceRequest u) (fst (solve_captcha_with_openai env u)) \<le> MAX_RETRIES
   \<and> backoff u 1 (fst (solve_captcha_with_openai env u))
   \<and> (snd (solve_captcha_with_openai env u) = None \<longrightarrow>
        fst (solve_captcha_with_openai env u) = []
      \<or> fst (solve_captcha_with_openai env u) =
          [ServiceRequest u, Sleep (RETRY_DELAY_SECONDS * 1),
           ServiceRequest u, Sleep (RETRY_DELAY_SECONDS * 2),
           ServiceRequest u, Sleep (RETRY_DELAY_SECONDS * 3),
           ServiceRequest u, Sleep (RETRY_DELAY_SECONDS * 4),
           ServiceRequest u])
   \<and> MAX_RETRIES = 5 \<and> RETRY_DELAY_SECONDS = 2"
proof -
  have e: "count_event Poll (fst (extract_captcha_data_url page)) \<le> MAX_RETRIES
      \<and> (snd (extract_captcha_data_url page) = None \<longrightarrow>
           count_event Poll (fst (extract_captcha_data_url page)) = MAX_RETRIES)
      \<and> polls_apart RETRY_DELAY_SECONDS (fst (extract_captcha_data_url page))"
    using extract_attempts_upt[of 0 page]
    by (simp add: extract_captcha_data_url_def split_beta)
  have s: "count_event (ServiceRequest u) (fst (solve_captcha_with_openai env u)) \<le> MAX_RETRIES
      \<and> backoff u 1 (fst (solve_captcha_with_openai env u))
      \<and> (snd (solve_captcha_with_openai env u) = None \<longrightarrow>
           fst (solve_captcha_with_openai env u) = []
         \<or> fst (solve_captcha_with_openai env u) =
             [ServiceRequest u, Sleep (RETRY_DELAY_SECONDS * 1),
              ServiceRequest u, Sleep (RETRY_DELAY_SECONDS * 2),
              ServiceRequest u, Sleep (RETRY_DELAY_SECONDS * 3),
              ServiceRequest u, Sleep (RETRY_DELAY_SECONDS * 4),
              ServiceRequest u])"
    using solve_attempts_bound[where svc = "service env" and u = u]
    by (simp add: solve_captcha_with_openai_def split_beta split: option.splits)
  show ?thesis using e s by (simp add: MAX_RETRIES_def RETRY_DELAY_SECONDS_def)
qed

theorem bounded_retries_witness:
  "snd (extract_captcha_data_url
          (\<lambda>attempt. \<lparr>captcha_img = Inr True, src_attr = Inr (Some ''data:image/gif;base64,R0''),
                       screenshot_b64 = Inr []\<rparr>)) = None
   \<and> count_event Poll (fst (extract_captcha_data_url
          (\<lambda>attempt. \<lparr>captcha_img = Inr True, src_attr = Inr (Some ''data:image/gif;base64,R0''),
                       screenshot_b64 = Inr []\<rparr>))) = MAX_RETRIES
   \<and> snd (solve_captcha_with_openai
          \<lparr>api_key = Some ''k'', service = (\<lambda>attempt. Inl DriverError)\<rparr> ''u'') = None
   \<and> fst (solve_captcha_with_openai
          \<lparr>api_key = Some ''k'', service = (\<lambda>attempt. Inl DriverError)\<rparr> ''u'') =
        [ServiceRequest ''u'', Sleep 2, ServiceRequest ''u'', Sleep 4, ServiceRequest ''u'',
         Sleep 6, ServiceRequest ''u'', Sleep 8, ServiceRequest ''u'']"
proof -
  let ?page = "\<lambda>attempt::nat. \<lparr>captcha_img = Inr True,
      src_attr = Inr (Some ''data:image/gif;base64,R0''), screenshot_b64 = Inr []\<rparr>"
  let ?env = "\<lparr>api_key = Some ''k'', service = (\<lambda>attempt::nat. Inl DriverError)\<rparr>"
  have upt: "[0..<MAX_RETRIES] = [0, 1, 2, 3, 4]"
    by (simp add: MAX_RETRIES_def upt_rec)
  have a: "snd (extract_captcha_data_url ?page) = None"
    by (simp add: extract_captcha_data_url_def upt probe_once_def)
  have b: "snd (solve_captcha_with_openai ?env ''u'') = None"
    by (simp add: solve_captcha_with_openai_def upt; simp add: MAX_RETRIES_def)
  have c: "fst (solve_captcha_with_openai ?env ''u'') \<noteq> []"
    by (simp add: solve_captcha_with_openai_def upt; simp add: MAX_RETRIES_def)
  note t = bounded_retries[where page = ?page and env = ?env and u = "''u''"]
  have "count_event Poll (fst (extract_captcha_data_url ?page)) = MAX_RETRIES"
    using t a by blast
  moreover have "fst (solve_captcha_with_openai ?env ''u'') =
        [ServiceRequest ''u'', Sleep 2, ServiceRequest ''u'', Sleep 4, ServiceRequest ''u'',
         Sleep 6, ServiceRequest ''u'', Sleep 8, ServiceRequest ''u'']"
  proof -
    have "fst (solve_captcha_with_openai ?env ''u'') =
          [ServiceRequest ''u'', Sleep (RETRY_DELAY_SECONDS * 1),
           ServiceRequest ''u'', Sleep (RETRY_DELAY_SECONDS * 2),
           ServiceRequest ''u'', Sleep (RETRY_DELAY_SECONDS * 3),
           ServiceRequest ''u'', Sleep (RETRY_DELAY_SECONDS * 4),
           ServiceRequest ''u'']"
      using t b c by blast
    then show ?thesis by (simp add: RETRY_DELAY_SECONDS_def)
  qed
  ultimately show ?thesis using a b by blast
qed

section \<open>Claim C6: the attempt cap per captcha image\<close>


lemma extract_attempts_no_solve:
  "count_event (SolveCall u) (fst (extract_attempts page as)) = 0"
  by (induction as) (auto split: probe_result.splits prod.splits)

lemma solve_attempts_no_solve:
  "count_event (SolveCall u) (fst (solve_attempts svc v as)) = 0"
  by (induction as) (auto split: sum.splits prod.splits)

lemma solver_no_solve:
  "count_event (SolveCall u) (fst (solve_captcha_with_openai env v)) = 0"
  by (simp add: solve_captcha_with_openai_def solve_attempts_no_solve split: option.splits)

lemma extractor_no_solve:
  "count_event (SolveCall u) (fst (extract_captcha_data_url page)) = 0"
  by (simp add: extract_captcha_data_url_def extract_attempts_no_solve)

lemma extract_attempts_no_request:
  "ServiceRequest v \<notin> set (fst (extract_attempts page as))"
  by (induction as) (auto split: probe_result.splits prod.splits)

lemma attempt_registry:
  assumes "attempt_captcha_solve reg r = (reg', es, res)"
  shows "registry_get reg' u = registry_get reg u + count_event (SolveCall u) es
       \<and> (0 < count_event (SolveCall u) es \<longrightarrow> registry_get reg u < MAX_RETRIES)"
proof (cases "extract_captcha_data_url (probes r)")
  case (Pair es1 d)
  have n1: "count_event (SolveCall u) es1 = 0"
    using extractor_no_solve[of u "probes r"] Pair by simp
  show ?thesis
  proof (cases d)
    case None
    then show ?thesis using assms Pair n1 by (auto simp add: attempt_captcha_solve_def)
  next
    case (Some data_url)
    show ?thesis
    proof (cases "MAX_RETRIES \<le> registry_get reg data_url")
      case True
      then show ?thesis using assms Pair Some n1 by (auto simp add: attempt_captcha_solve_def)
    next
      case False
      obtain es2 t where s: "solve_captcha_with_openai (solver r) data_url = (es2, t)"
        by (cases "solve_captcha_with_openai (solver r) data_url")
      have n2: "count_event (SolveCall u) es2 = 0"
        using solver_no_solve[of u "solver r" data_url] s by simp
      have reg': "reg' = reg(data_url \<mapsto> registry_get reg data_url + 1)"
        and es: "es = es1 @ SolveCall data_url # es2"
        using assms Pair Some False s by (auto simp add: attempt_captcha_solve_def)
      show ?thesis using False n1 n2 by (auto simp add: reg' es registry_get_def)
    qed
  qed
qed

lemma captcha_rounds_registry:
  assumes "captcha_rounds reg rs = (reg', es)" "registry_get reg u \<le> MAX_RETRIES"
  shows "registry_get reg' u = registry_get reg u + count_event (SolveCall u) es
       \<and> registry_get reg' u \<le> MAX_RETRIES"
  using assms
proof (induction rs arbitrary: reg reg' es)
  case Nil
  then show ?case by simp
next
  case (Cons r rs)
  obtain reg1 es1 res where a: "attempt_captcha_solve reg r = (reg1, es1, res)"
    by (cases "attempt_captcha_solve reg r")
  obtain reg2 es2 where b: "captcha_rounds reg1 rs = (reg2, es2)"
    by (cases "captcha_rounds reg1 rs")
  have eq: "reg' = reg2" "es = es1 @ es2" using Cons.prems(1) a b by simp_all
  have s1: "registry_get reg1 u = registry_get reg u + count_event (SolveCall u) es1"
    "0 < count_event (SolveCall u) es1 \<longrightarrow> registry_get reg u < MAX_RETRIES"
    using attempt_registry[OF a, of u] by simp_all
  have c1: "count_event (SolveCall u) es1 \<le> 1"
  proof -
    have "count_event (SolveCall u) es1 = registry_get reg1 u - registry_get reg u" using s1 by simp
    moreover have "registry_get reg1 u \<le> registry_get reg u + 1"
      using a
      by (auto simp add: attempt_captcha_solve_def registry_get_def
          split: prod.splits option.splits if_splits)
    ultimately show ?thesis by simp
  qed
  have le1: "registry_get reg1 u \<le> MAX_RETRIES"
    using s1 c1 Cons.prems(2) by (cases "count_event (SolveCall u) es1 = 0") auto
  from Cons.IH[OF b le1] show ?case using s1 by (simp add: eq)
qed


lemma registry_get_empty: "registry_get Map.empty u = 0"
  by (simp add: registry_get_def)

text \<open>
  Claim C6. Over any sequence of calls of \<open>attempt_captcha_solve\<close> in one process, starting
  from the empty registry, the solver is called at most \<open>MAX_RETRIES\<close> = 5 times for one image
  (one data URL), and the registry counts exactly these calls. Once the registry holds
  \<open>MAX_RETRIES\<close> for an image, a further attempt on it returns False after the extraction
  alone: no solver call, no request to the service, the registry unchanged.
\<close>

theorem per_image_attempt_cap:
  "count_event (SolveCall u) (snd (captcha_rounds Map.empty rs)) \<le> MAX_RETRIES
   \<and> registry_get (fst (captcha_rounds Map.empty rs)) u
       = count_event (SolveCall u) (snd (captcha_rounds Map.empty rs))
   \<and> (MAX_RETRIES \<le> registry_get reg u \<and> snd (extract_captcha_data_url (probes r)) = Some u
        \<longrightarrow> attempt_captcha_solve reg r
              = (reg, fst (extract_captcha_data_url (probes r)), Inr False)
          \<and> count_event (SolveCall u) (fst (extract_captcha_data_url (probes r))) = 0
          \<and> (\<forall>v. ServiceRequest v \<notin> set (fst (extract_captcha_data_url (probes r)))))"
proof (intro conjI impI)
  obtain reg' es where c: "captcha_rounds Map.empty rs = (reg', es)"
    by (cases "captcha_rounds Map.empty rs")
  have "registry_get reg' u = registry_get Map.empty u + count_event (SolveCall u) es
       \<and> registry_get reg' u \<le> MAX_RETRIES"
    by (rule captcha_rounds_registry[OF c]) (simp add: registry_get_empty)
  then show "count_event (SolveCall u) (snd (captcha_rounds Map.empty rs)) \<le> MAX_RETRIES"
    and "registry_get (fst (captcha_rounds Map.empty rs)) u
       = count_event (SolveCall u) (snd (captcha_rounds Map.empty rs))"
    by (simp_all add: c registry_get_empty)
next
  assume h: "MAX_RETRIES \<le> registry_get reg u \<and> snd (extract_captcha_data_url (probes r)) = Some u"
  then show "attempt_captcha_solve reg r
              = (reg, fst (extract_captcha_data_url (probes r)), Inr False)"
    by (cases "extract_captcha_data_url (probes r)") (simp add: attempt_captcha_solve_def)
  show "count_event (SolveCall u) (fst (extract_captcha_data_url (probes r))) = 0"
    by (rule extractor_no_solve)
  show "\<forall>v. ServiceRequest v \<notin> set (fst (extract_captcha_data_url (probes r)))"
    by (simp add: extract_captcha_data_url_def extract_attempts_no_request)
qed

theorem per_image_attempt_cap_witness:
  "MAX_RETRIES \<le> registry_get (Map.empty(''data:image/png;base64,QUJD'' \<mapsto> 5))
                    ''data:image/png;base64,QUJD''
   \<and> snd (extract_captcha_data_url
        (\<lambda>attempt. \<lparr>captcha_img = Inr True, src_attr = Inr (Some ''/captcha.png''),
                     screenshot_b64 = Inr ''QUJD''\<rparr>)) = Some ''data:image/png;base64,QUJD''
   \<and> attempt_captcha_solve (Map.empty(''data:image/png;base64,QUJD'' \<mapsto> 5))
        \<lparr>probes = (\<lambda>attempt. \<lparr>captcha_img = Inr True, src_attr = Inr (Some ''/captcha.png''),
                                screenshot_b64 = Inr ''QUJD''\<rparr>),
         solver = \<lparr>api_key = Some ''k'', service = (\<lambda>attempt. Inr ''ABCDE'')\<rparr>,
         response_input = Inr True, send_keys = None\<rparr>
      = (Map.empty(''data:image/png;base64,QUJD'' \<mapsto> 5), [Poll], Inr False)"
proof -
  let ?u = "''data:image/png;base64,QUJD''"
  let ?pr = "\<lambda>attempt::nat. \<lparr>captcha_img = Inr True, src_attr = Inr (Some ''/captcha.png''),
                     screenshot_b64 = Inr ''QUJD''\<rparr>"
  let ?r = "\<lparr>probes = ?pr,
         solver = \<lparr>api_key = Some ''k'', service = (\<lambda>attempt::nat. Inr ''ABCDE'')\<rparr>,
         response_input = Inr True, send_keys = None\<rparr>"
  let ?reg = "Map.empty(?u \<mapsto> (5::nat))"
  have upt: "[0..<MAX_RETRIES] = [0, 1, 2, 3, 4]"
    by (simp add: MAX_RETRIES_def upt_rec)
  have a: "MAX_RETRIES \<le> registry_get ?reg ?u"
    by (simp add: registry_get_def MAX_RETRIES_def)
  have b: "extract_captcha_data_url ?pr = ([Poll], Some ?u)"
    by (simp add: extract_captcha_data_url_def upt probe_once_def)
  have pr: "probes ?r = ?pr" by simp
  have "attempt_captcha_solve ?reg ?r = (?reg, fst (extract_captcha_data_url (probes ?r)), Inr False)"
    using per_image_attempt_cap[where reg = ?reg and u = ?u and r = ?r] a b pr
    by (metis snd_conv)
  then show ?thesis using a b pr by simp
qed

section \<open>Claim C10: an invalid reply to the first-run prompt\<close>





end
